theory Spec2Isabelle
  imports Main "HOL-Library.Word"
begin

section \<open>Strings of UTF-16 code units\<close>

text \<open>
  The route \<^verbatim>\<open>app/api/docx-to-questions/route.ts\<close> works on JavaScript strings.
  A JavaScript string is a sequence of 16-bit code units; \<^verbatim>\<open>length\<close>,
  \<^verbatim>\<open>slice\<close>, \<^verbatim>\<open>trim\<close> and regular expressions without the \<^verbatim>\<open>u\<close> flag
  all count and match code units. A string is therefore a list of 16-bit words here.
  String literals of the source are written \<open>str ''...''\<close>.
\<close>

type_synonym code_unit = "16 word"
type_synonym jsstring = "code_unit list"

definition cu :: "char \<Rightarrow> code_unit" where
  "cu c = word_of_nat (of_char c)"

definition str :: "string \<Rightarrow> jsstring" where
  "str s = map cu s"

text \<open>
  \<^verbatim>\<open>\s\<close> in a regular expression and the characters removed by
  \<^verbatim>\<open>String.prototype.trim\<close> are the same set: WhiteSpace and LineTerminator of
  ECMAScript (TAB, LF, VT, FF, CR, SP, NBSP, U+1680, U+2000..U+200A, U+2028, U+2029,
  U+202F, U+205F, U+3000, U+FEFF).
\<close>

definition is_space :: "code_unit \<Rightarrow> bool" where
  "is_space c = (let n = unat c in
     (9 \<le> n \<and> n \<le> 13) \<or> n = 32 \<or> n = 160 \<or> n = 5760 \<or> (8192 \<le> n \<and> n \<le> 8202) \<or>
     n = 8232 \<or> n = 8233 \<or> n = 8239 \<or> n = 8287 \<or> n = 12288 \<or> n = 65279)"

text \<open>The characters that \<^verbatim>\<open>.\<close> does not match: LF, CR, U+2028, U+2029.\<close>

definition is_line_terminator :: "code_unit \<Rightarrow> bool" where
  "is_line_terminator c = (let n = unat c in n = 10 \<or> n = 13 \<or> n = 8232 \<or> n = 8233)"

definition is_digit :: "code_unit \<Rightarrow> bool" where
  "is_digit c = (let n = unat c in 48 \<le> n \<and> n \<le> 57)"

text \<open>The class \<^verbatim>\<open>[A-H]\<close>.\<close>

definition is_A_H :: "code_unit \<Rightarrow> bool" where
  "is_A_H c = (let n = unat c in 65 \<le> n \<and> n \<le> 72)"

text \<open>
  Case-insensitive matching without the \<^verbatim>\<open>u\<close> flag compares the canonical forms
  of two code units. Every pattern character of this program that has a case is an ASCII
  letter, and a code unit above 127 is never canonicalised to an ASCII one, so the
  canonical form matters on ASCII letters only: \<open>a..z\<close> go to \<open>A..Z\<close>.
\<close>

definition canon :: "code_unit \<Rightarrow> code_unit" where
  "canon c = (let n = unat c in if 97 \<le> n \<and> n \<le> 122 then c - 32 else c)"

text \<open>\<^verbatim>\<open>\w\<close>, which decides the word boundary \<^verbatim>\<open>\b\<close>.\<close>

definition is_word_char :: "code_unit \<Rightarrow> bool" where
  "is_word_char c = (let n = unat c in
     (48 \<le> n \<and> n \<le> 57) \<or> (65 \<le> n \<and> n \<le> 90) \<or> n = 95 \<or> (97 \<le> n \<and> n \<le> 122))"

definition trim :: "jsstring \<Rightarrow> jsstring" where
  "trim s = rev (dropWhile is_space (rev (dropWhile is_space s)))"

text \<open>
  \<^verbatim>\<open>s.replace(/X+/g, " ")\<close> for a character class \<open>X\<close>: every maximal run of
  characters of the class becomes one space.
\<close>

function replace_runs :: "(code_unit \<Rightarrow> bool) \<Rightarrow> jsstring \<Rightarrow> jsstring" where
  "replace_runs P [] = []"
| "replace_runs P (c # cs) =
     (if P c then cu CHR '' '' # replace_runs P (dropWhile P cs) else c # replace_runs P cs)"
  by pat_completeness auto
termination
  by (relation "measure (\<lambda>(P, s). length s)")
     (auto simp: length_dropWhile_le less_Suc_eq_le)

text \<open>\<^verbatim>\<open>String(n)\<close> for an integer: its decimal digits, with a sign when negative.\<close>

function digits_of :: "nat \<Rightarrow> jsstring" where
  "digits_of n =
     (if n < 10 then [word_of_nat (48 + n)]
      else digits_of (n div 10) @ [word_of_nat (48 + n mod 10)])"
  by pat_completeness auto
termination
  by (relation "measure id") auto

declare digits_of.simps [simp del]

definition String_of :: "int \<Rightarrow> jsstring" where
  "String_of i = (if i < 0 then cu CHR ''-'' # digits_of (nat (- i)) else digits_of (nat i))"

text \<open>\<^verbatim>\<open>parseInt(ds, 10)\<close> on a string of decimal digits.\<close>

definition parseInt :: "jsstring \<Rightarrow> int" where
  "parseInt ds = foldl (\<lambda>a c. 10 * a + (int (unat c) - 48)) 0 ds"

section \<open>The regular expressions\<close>

text \<open>
  Each matcher below is the deterministic reading of one regular expression of the
  source. The character classes that follow each other in these expressions are
  pairwise disjoint (\<^verbatim>\<open>\s\<close>, \<^verbatim>\<open>\d\<close>, \<^verbatim>\<open>[A-H]\<close>, \<^verbatim>\<open>[.)]\<close>,
  \<^verbatim>\<open>[:\-]\<close>), so a greedy quantifier that gave characters back could not let
  the next item match: the greedy choice is the only one. The one place where
  backtracking can change the outcome, the tail \<^verbatim>\<open>\s*(.+)\s*$\<close> of
  \<^verbatim>\<open>ANSWER\<close>, enumerates the alternatives in the engine's order.
\<close>

text \<open>
  \<^verbatim>\<open>\s*[.)]\s+\<close> at the start of \<open>s\<close>: what is left after the match, if any.
\<close>

definition after_marker :: "jsstring \<Rightarrow> jsstring option" where
  "after_marker s =
     (case dropWhile is_space s of
        [] \<Rightarrow> None
      | c # r \<Rightarrow>
          if (c = cu CHR ''.'' \<or> c = cu CHR '')'') \<and> takeWhile is_space r \<noteq> []
          then Some (dropWhile is_space r) else None)"

text \<open>
  \<^verbatim>\<open>Q_START = /^\s*(\d{1,3})\s*[.)]\s+/\<close>: the digits of group 1 and the text
  after the match. The run of digits must be of length 1 to 3: after three digits of a
  longer run the next item would have to match a digit.
\<close>

definition Q_START :: "jsstring \<Rightarrow> (jsstring \<times> jsstring) option" where
  "Q_START s =
     (let s1 = dropWhile is_space s; ds = takeWhile is_digit s1 in
      if 1 \<le> length ds \<and> length ds \<le> 3 then
        (case after_marker (dropWhile is_digit s1) of
           None \<Rightarrow> None
         | Some r \<Rightarrow> Some (ds, r))
      else None)"

text \<open>
  \<^verbatim>\<open>/^\s*[A-H]\s*[.)]\s+/\<close>, the prefix that \<^verbatim>\<open>stripPrefix\<close> removes from
  the markup of a choice line: the letter and the text after the match.
\<close>

definition CHOICE_prefix :: "jsstring \<Rightarrow> (jsstring \<times> jsstring) option" where
  "CHOICE_prefix s =
     (case dropWhile is_space s of
        [] \<Rightarrow> None
      | c # r \<Rightarrow>
          if is_A_H c then
            (case after_marker r of None \<Rightarrow> None | Some r' \<Rightarrow> Some ([c], r'))
          else None)"

text \<open>
  \<^verbatim>\<open>CHOICE = /^\s*([A-H])\s*[.)]\s+(.*)$/\<close>: groups 1 and 2. Without the
  \<^verbatim>\<open>s\<close> and \<^verbatim>\<open>m\<close> flags \<^verbatim>\<open>(.*)$\<close> must reach the end of the string
  without crossing a line terminator.
\<close>

definition CHOICE :: "jsstring \<Rightarrow> (jsstring \<times> jsstring) option" where
  "CHOICE t =
     (case CHOICE_prefix t of
        None \<Rightarrow> None
      | Some (k, r) \<Rightarrow> if list_ex is_line_terminator r then None else Some (k, r))"

text \<open>A literal keyword matched case-insensitively at the start of a string.\<close>

fun ci_prefix :: "jsstring \<Rightarrow> jsstring \<Rightarrow> jsstring option" where
  "ci_prefix [] s = Some s"
| "ci_prefix (p # ps) [] = None"
| "ci_prefix (p # ps) (c # cs) = (if canon c = canon p then ci_prefix ps cs else None)"

fun first_some :: "('a \<Rightarrow> 'b option) \<Rightarrow> 'a list \<Rightarrow> 'b option" where
  "first_some f [] = None"
| "first_some f (x # xs) = (case f x of Some y \<Rightarrow> Some y | None \<Rightarrow> first_some f xs)"

text \<open>
  \<^verbatim>\<open>(.+)\s*$\<close> at the start of \<open>s\<close>: the longest non-empty prefix free of line
  terminators after which only white space remains.
\<close>

definition body_at :: "jsstring \<Rightarrow> jsstring option" where
  "body_at s =
     (let n = length (takeWhile (\<lambda>c. \<not> is_line_terminator c) s) in
      first_some (\<lambda>k. if list_all is_space (drop k s) then Some (take k s) else None)
        (rev [1 ..< Suc n]))"

text \<open>
  \<^verbatim>\<open>\s*(.+)\s*$\<close>: the leading white space is taken greedily and given back
  one character at a time until the rest matches.
\<close>

definition ANSWER_tail :: "jsstring \<Rightarrow> jsstring option" where
  "ANSWER_tail r =
     (let n = length (takeWhile is_space r) in
      first_some (\<lambda>m. body_at (drop m r)) (rev [0 ..< Suc n]))"

text \<open>
  \<^verbatim>\<open>(?:Answer|Ans|Correct Answer)\<close>, case-insensitive. When \<^verbatim>\<open>Answer\<close>
  matches, the alternative \<^verbatim>\<open>Ans\<close> cannot succeed later: it would be followed by
  the letter w, where white space, a colon or a hyphen is needed.
\<close>

definition ANSWER_keyword :: "jsstring \<Rightarrow> jsstring option" where
  "ANSWER_keyword s =
     (case ci_prefix (str ''Answer'') s of
        Some r \<Rightarrow> Some r
      | None \<Rightarrow>
          (case ci_prefix (str ''Ans'') s of
             Some r \<Rightarrow> Some r
           | None \<Rightarrow> ci_prefix (str ''Correct Answer'') s))"

text \<open>
  \<^verbatim>\<open>ANSWER = /^\s*(?:Answer|Ans|Correct Answer)\s*[:\-]\s*(.+)\s*$/i\<close>: group 1.
\<close>

definition ANSWER :: "jsstring \<Rightarrow> jsstring option" where
  "ANSWER t =
     (case ANSWER_keyword (dropWhile is_space t) of
        None \<Rightarrow> None
      | Some r \<Rightarrow>
          (case dropWhile is_space r of
             [] \<Rightarrow> None
           | c # r' \<Rightarrow>
               if c = cu CHR '':'' \<or> c = cu CHR ''-'' then ANSWER_tail r' else None))"

section \<open>Helpers of the route\<close>

text \<open>
  \<^verbatim>\<open>toUpperCase\<close> is applied to a letter of \<^verbatim>\<open>[A-H]\<close> (the key of a
  choice) or of \<^verbatim>\<open>[A-Ha-h]\<close> (the answer letter) only; on ASCII it is \<open>canon\<close>.
\<close>

definition toUpperCase :: "jsstring \<Rightarrow> jsstring" where
  "toUpperCase s = map canon s"

text \<open>
  \<^verbatim>\<open>normalizeAnswer\<close>: a leading letter \<^verbatim>\<open>/^[A-H]\b/i\<close> of the trimmed
  string in upper case, else the string with its white space runs collapsed.
\<close>

definition normalizeAnswer :: "jsstring \<Rightarrow> jsstring" where
  "normalizeAnswer raw =
     (let s = trim raw in
      case s of
        [] \<Rightarrow> replace_runs is_space s
      | c # r \<Rightarrow>
          if is_A_H (canon c) \<and> (r = [] \<or> \<not> is_word_char (hd r))
          then toUpperCase [c]
          else replace_runs is_space s)"

text \<open>
  \<^verbatim>\<open>stripPrefix(html, prefixRegex)\<close> is \<^verbatim>\<open>html.replace(prefixRegex, "")\<close>
  with an expression anchored at the start: the match is removed, and a string that
  does not match is returned as it is. The expression is passed as its matcher.
\<close>

definition stripPrefix :: "jsstring \<Rightarrow> (jsstring \<Rightarrow> (jsstring \<times> jsstring) option) \<Rightarrow> jsstring" where
  "stripPrefix html prefixRegex =
     (case prefixRegex html of None \<Rightarrow> html | Some (m, rest) \<Rightarrow> rest)"

text \<open>
  The HTML parser (the cheerio library) is not part of the repository. The two uses the
  route makes of it are parameters of the model:
  \<^item> \<open>root_text doc\<close> is \<^verbatim>\<open>cheerio.load(doc).root().text()\<close>;
  \<^item> \<open>unwrapped_text doc\<close> is the same text after every \<^verbatim>\<open>strong\<close> and
    \<^verbatim>\<open>tr\<close> element of the loaded document has been replaced by its content and
    every \<^verbatim>\<open>br\<close> by a space.
\<close>

record cheerio =
  root_text :: "jsstring \<Rightarrow> jsstring"
  unwrapped_text :: "jsstring \<Rightarrow> jsstring"

definition is_tab :: "code_unit \<Rightarrow> bool" where
  "is_tab c = (unat c = 9)"

text \<open>\<^verbatim>\<open>text.replace(/\t+/g, " ").replace(/\s+/g, " ").trim()\<close>\<close>

definition collapse_text :: "jsstring \<Rightarrow> jsstring" where
  "collapse_text s = trim (replace_runs is_space (replace_runs is_tab s))"

definition toPlainStem :: "cheerio \<Rightarrow> jsstring \<Rightarrow> jsstring" where
  "toPlainStem ch html = collapse_text (root_text ch (str ''<div>'' @ html @ str ''</div>''))"

definition cleanChoiceHtml :: "cheerio \<Rightarrow> jsstring \<Rightarrow> jsstring" where
  "cleanChoiceHtml ch html =
     collapse_text (unwrapped_text ch (str ''<div>'' @ html @ str ''</div>''))"

text \<open>\<^verbatim>\<open>parts.join(sep)\<close>\<close>

fun join :: "jsstring \<Rightarrow> jsstring list \<Rightarrow> jsstring" where
  "join sep [] = []"
| "join sep [p] = p"
| "join sep (p # q # ps) = p @ sep @ join sep (q # ps)"

text \<open>
  \<^verbatim>\<open>(?:<br\/>\s*)*\<close> at the start of \<open>s\<close>, greedy: how many times the group
  matched and what is left.
\<close>

function br_units :: "jsstring \<Rightarrow> nat \<times> jsstring" where
  "br_units s =
     (if take 5 s = str ''<br/>''
      then (case br_units (dropWhile is_space (drop 5 s)) of (n, r) \<Rightarrow> (Suc n, r))
      else (0, s))"
  by pat_completeness auto
termination
proof (relation "measure length")
  fix s :: jsstring
  assume "take 5 s = str ''<br/>''"
  then have "length (take 5 s) = 5"
    by (simp add: str_def)
  then have "5 \<le> length s"
    by simp
  moreover have "length (dropWhile is_space (drop 5 s)) \<le> length (drop 5 s)"
    by (rule length_dropWhile_le)
  ultimately show "(dropWhile is_space (drop 5 s), s) \<in> measure length"
    by simp
qed simp

declare br_units.simps [simp del]

lemma br_units_length:
  "br_units s = (n, r) \<Longrightarrow> length r \<le> length s \<and> (0 < n \<longrightarrow> length r < length s)"
proof (induction s arbitrary: n r rule: br_units.induct)
  case (1 s)
  show ?case
  proof (cases "take 5 s = str ''<br/>''")
    case True
    obtain n' r' where rec: "br_units (dropWhile is_space (drop 5 s)) = (n', r')"
      by (cases "br_units (dropWhile is_space (drop 5 s))")
    from True have "length (take 5 s) = 5"
      by (simp add: str_def)
    then have len: "5 \<le> length s"
      by simp
    have "length (dropWhile is_space (drop 5 s)) \<le> length (drop 5 s)"
      by (rule length_dropWhile_le)
    with len have shorter: "length (dropWhile is_space (drop 5 s)) < length s"
      by simp
    from "1.IH" [OF True rec] have "length r' \<le> length (dropWhile is_space (drop 5 s))"
      by simp
    moreover from "1.prems" True rec have "r = r'"
      by (subst (asm) br_units.simps) simp
    ultimately show ?thesis
      using shorter by simp
  next
    case False
    with "1.prems" have "n = 0" and "r = s"
      by (subst (asm) br_units.simps, simp)+
    then show ?thesis
      by simp
  qed
qed

text \<open>
  \<^verbatim>\<open>s.replace(/(?:<br\/>\s*){3,}/g, "<br/><br/>")\<close>: scanning from the left, a
  position where the group matches three times or more is replaced, with all the
  repetitions the group can take; elsewhere the character is kept.
\<close>

function collapse_br :: "jsstring \<Rightarrow> jsstring" where
  "collapse_br [] = []"
| "collapse_br (c # cs) =
     (case br_units (c # cs) of
        (n, r) \<Rightarrow> if 3 \<le> n then str ''<br/><br/>'' @ collapse_br r else c # collapse_br cs)"
  by pat_completeness auto
termination
proof (relation "measure length")
  fix c :: code_unit and cs n r
  assume "(n, r) = br_units (c # cs)" and "3 \<le> n"
  then have "length r < length (c # cs)"
    using br_units_length [of "c # cs" n r] by simp
  then show "(r, c # cs) \<in> measure length"
    by simp
qed simp_all

section \<open>Data model\<close>

text \<open>
  Field names that are keywords of Isabelle or that two types of the source share carry a
  letter in front: \<open>ltext\<close> is \<^verbatim>\<open>Line.text\<close>, \<open>ctext\<close> is
  \<^verbatim>\<open>ChoiceOut.text\<close>, \<open>unote\<close> is the \<^verbatim>\<open>note\<close> of a diagnostic entry,
  \<open>qid\<close>, \<open>qindex\<close>, \<open>qtype\<close>, \<open>qchoices\<close> and \<open>qanswer\<close> are the
  \<^verbatim>\<open>id\<close>, \<^verbatim>\<open>index\<close>, \<^verbatim>\<open>type\<close>, \<^verbatim>\<open>choices\<close> and
  \<^verbatim>\<open>answer\<close> of \<^verbatim>\<open>QuestionOut\<close>, \<open>mtype\<close> is \<^verbatim>\<open>Media.type\<close>.
\<close>

record Line =
  html :: jsstring
  ltext :: jsstring

text \<open>\<open>num = None\<close> is the source's \<^verbatim>\<open>num: null\<close>.\<close>

record Block =
  num :: "int option"
  lines :: "Line list"

record ChoiceOut =
  key :: jsstring
  ctext :: jsstring

record Media =
  mtype :: jsstring
  url :: jsstring
  alt :: jsstring

datatype QuestionType = MULTIPLE_CHOICE | FREE_RESPONSE

record QuestionOut =
  qid :: jsstring
  qindex :: int
  qtype :: QuestionType
  category :: jsstring
  stem :: jsstring
  media :: Media
  qchoices :: "ChoiceOut list"
  qanswer :: jsstring

text \<open>
  The objects pushed on \<^verbatim>\<open>unparsed\<close>: \<open>index = None\<close> is \<^verbatim>\<open>index: null\<close>;
  \<open>sample\<close> and \<open>unote\<close> are \<open>None\<close> where the object has no such property.
\<close>

record Unparsed =
  index :: "int option"
  reason :: jsstring
  sample :: "jsstring option"
  unote :: "jsstring option"

record Stats =
  totalBlocks :: nat
  parsed :: nat
  unparsed_count :: nat

record DiagnosticsPayload =
  questions :: "QuestionOut list"
  unparsed :: "Unparsed list"
  stats :: Stats

section \<open>Segmentation into blocks\<close>

text \<open>
  The input of the model is \<^verbatim>\<open>lines\<close>, the paragraphs of the decoded document
  after the filter that drops the empty ones. The state of the segmentation loop is the
  array \<^verbatim>\<open>blocks\<close> and the variable \<^verbatim>\<open>cur\<close> (\<open>None\<close> for \<^verbatim>\<open>null\<close>).
\<close>

record seg_state =
  blocks :: "Block list"
  cur :: "Block option"

text \<open>The \<^verbatim>\<open>while\<close> loop of \<^verbatim>\<open>pushCur\<close>: trailing blank lines are popped.\<close>

function pop_blank :: "Line list \<Rightarrow> Line list" where
  "pop_blank ls =
     (if ls \<noteq> [] \<and> trim (ltext (last ls)) = [] then pop_blank (butlast ls) else ls)"
  by pat_completeness auto
termination
  by (relation "measure length") auto

declare pop_blank.simps [simp del]

definition pushCur :: "seg_state \<Rightarrow> seg_state" where
  "pushCur s =
     (case cur s of
        None \<Rightarrow> s
      | Some c \<Rightarrow>
          (let ls = pop_blank (lines c) in
           \<lparr>blocks = (if ls \<noteq> [] then blocks s @ [c\<lparr>lines := ls\<rparr>] else blocks s),
            cur = None\<rparr>))"

text \<open>
  The body of \<^verbatim>\<open>for (const ln of lines)\<close>. The number of a block is
  \<^verbatim>\<open>parseInt\<close> of one to three digits, always a finite number, so
  \<^verbatim>\<open>Number.isFinite(b.num)\<close> is \<open>num b \<noteq> None\<close>.
\<close>

definition segment_step :: "Line \<Rightarrow> seg_state \<Rightarrow> seg_state" where
  "segment_step ln s =
     (case Q_START (ltext ln) of
        Some (m1, rest) \<Rightarrow>
          (pushCur s)\<lparr>cur := Some \<lparr>num = Some (parseInt m1), lines = [ln]\<rparr>\<rparr>
      | None \<Rightarrow>
          (case cur s of
             Some c \<Rightarrow> s\<lparr>cur := Some (c\<lparr>lines := lines c @ [ln]\<rparr>)\<rparr>
           | None \<Rightarrow> s))"

fun segment_loop :: "Line list \<Rightarrow> seg_state \<Rightarrow> seg_state" where
  "segment_loop [] s = s"
| "segment_loop (ln # rest) s = segment_loop rest (segment_step ln s)"

text \<open>Lines 130 to 154: the blocks after the loop and the last \<^verbatim>\<open>pushCur\<close>.\<close>

definition segment :: "Line list \<Rightarrow> Block list" where
  "segment lns = blocks (pushCur (segment_loop lns \<lparr>blocks = [], cur = None\<rparr>))"

text \<open>
  \<^verbatim>\<open>if (blocks.length === 0 && lines.length) blocks.push({ num: null, lines })\<close>,
  which the route runs before the numbering audit and once more after it.
\<close>

definition fallback :: "Line list \<Rightarrow> Block list \<Rightarrow> Block list" where
  "fallback lns bs = (if bs = [] \<and> lns \<noteq> [] then bs @ [\<lparr>num = None, lines = lns\<rparr>] else bs)"

section \<open>The numbering audit\<close>

text \<open>
  A JavaScript \<^verbatim>\<open>Set\<close> keeps its elements in insertion order, without repetition:
  a list, to which \<^verbatim>\<open>add\<close> appends an element that is not in it yet.
\<close>

definition set_add :: "int \<Rightarrow> int list \<Rightarrow> int list" where
  "set_add n xs = (if n \<in> set xs then xs else xs @ [n])"

text \<open>The loop over the blocks that fills \<^verbatim>\<open>present\<close> and \<^verbatim>\<open>duplicates\<close>.\<close>

fun number_sets :: "Block list \<Rightarrow> int list \<times> int list \<Rightarrow> int list \<times> int list" where
  "number_sets [] pd = pd"
| "number_sets (b # bs) (present, duplicates) =
     number_sets bs
       (case num b of
          None \<Rightarrow> (present, duplicates)
        | Some n \<Rightarrow>
            if n \<in> set present then (present, set_add n duplicates)
            else (set_add n present, duplicates))"

definition duplicate_entry :: "int \<Rightarrow> Unparsed" where
  "duplicate_entry n =
     \<lparr>index = Some n, reason = str ''duplicate-number'', sample = None, unote = None\<rparr>"

definition missing_entry :: "int \<Rightarrow> Unparsed" where
  "missing_entry i =
     \<lparr>index = Some i, reason = str ''missing-number'', sample = None, unote = None\<rparr>"

text \<open>
  \<^verbatim>\<open>for (let i = min; i <= max; i++)\<close>; the last argument is the array
  \<^verbatim>\<open>unparsed\<close>, returned with the entries pushed.
\<close>

function missing_loop :: "int list \<Rightarrow> int \<Rightarrow> int \<Rightarrow> Unparsed list \<Rightarrow> Unparsed list" where
  "missing_loop present i mx u =
     (if i \<le> mx
      then missing_loop present (i + 1) mx
             (if i \<notin> set present then u @ [missing_entry i] else u)
      else u)"
  by pat_completeness auto
termination
  by (relation "measure (\<lambda>(present, i, mx, u). nat (mx + 1 - i))") auto

declare missing_loop.simps [simp del]

text \<open>Lines 161 to 183. \<^verbatim>\<open>nums\<close> is \<^verbatim>\<open>present\<close> sorted by value.\<close>

definition auditNumbers :: "Block list \<Rightarrow> Unparsed list \<Rightarrow> Unparsed list" where
  "auditNumbers bs u =
     (case number_sets bs ([], []) of
        (present, duplicates) \<Rightarrow>
          (let u1 = u @ map duplicate_entry duplicates in
           if present \<noteq> [] then
             (let nums = sort present in missing_loop present (hd nums) (last nums) u1)
           else u1))"

section \<open>Classification of the lines of a block\<close>

text \<open>
  The variables of the callback of \<^verbatim>\<open>blocks.forEach\<close>. \<^verbatim>\<open>currentChoice\<close>
  is a reference to an object that is also an element of \<^verbatim>\<open>choices\<close>: it is
  modelled by the position of that element, \<open>None\<close> for \<^verbatim>\<open>null\<close>; an assignment to
  \<^verbatim>\<open>currentChoice.text\<close> updates the element. \<open>answer = None\<close> is
  \<^verbatim>\<open>undefined\<close>.
\<close>

record classify_state =
  stemParts :: "jsstring list"
  choices :: "ChoiceOut list"
  currentChoice :: "nat option"
  answer :: "jsstring option"

text \<open>The callback of \<^verbatim>\<open>b.lines.forEach((ln, j) => ...)\<close>, lines 200 to 236.\<close>

definition classify_line :: "cheerio \<Rightarrow> Line \<Rightarrow> nat \<Rightarrow> classify_state \<Rightarrow> classify_state" where
  "classify_line ch ln j s =
     (let t = trim (ltext ln) in
      case CHOICE t of
        Some (cm1, cm2) \<Rightarrow>
          (let k = toUpperCase cm1;
               htmlNoPrefix = stripPrefix (html ln) CHOICE_prefix
           in s\<lparr>choices := choices s @ [\<lparr>key = k, ctext = cleanChoiceHtml ch htmlNoPrefix\<rparr>],
                currentChoice := Some (length (choices s))\<rparr>)
      | None \<Rightarrow>
          (case ANSWER t of
             Some am1 \<Rightarrow> s\<lparr>answer := Some (normalizeAnswer am1), currentChoice := None\<rparr>
           | None \<Rightarrow>
               if j = 0 then
                 s\<lparr>stemParts := stemParts s @ [stripPrefix (html ln) Q_START],
                   currentChoice := None\<rparr>
               else
                 (case currentChoice s of
                    Some k \<Rightarrow>
                      s\<lparr>choices := (choices s)
                          [k := (choices s ! k)
                             \<lparr>ctext := trim (ctext (choices s ! k) @ str '' '' @ html ln)\<rparr>]\<rparr>
                  | None \<Rightarrow> s\<lparr>stemParts := stemParts s @ [html ln]\<rparr>)))"

fun classify_lines :: "cheerio \<Rightarrow> Line list \<Rightarrow> nat \<Rightarrow> classify_state \<Rightarrow> classify_state" where
  "classify_lines ch [] j s = s"
| "classify_lines ch (ln # rest) j s = classify_lines ch rest (Suc j) (classify_line ch ln j s)"

definition classify :: "cheerio \<Rightarrow> Block \<Rightarrow> classify_state" where
  "classify ch b =
     classify_lines ch (lines b) 0
       \<lparr>stemParts = [], choices = [], currentChoice = None, answer = None\<rparr>"

section \<open>Questions and diagnostics of a block\<close>

text \<open>Lines 239 to 250: the stem as plain text.\<close>

definition plainStem_of :: "cheerio \<Rightarrow> jsstring list \<Rightarrow> jsstring" where
  "plainStem_of ch parts =
     (let stemHTML = trim (collapse_br (join (str ''<br/>'') parts)) in toPlainStem ch stemHTML)"

definition type_of :: "ChoiceOut list \<Rightarrow> QuestionType" where
  "type_of cs = (if 2 \<le> length cs then MULTIPLE_CHOICE else FREE_RESPONSE)"

text \<open>\<open>i\<close> is the position of the block in \<^verbatim>\<open>blocks\<close>, from 0.\<close>

definition index_of :: "Block \<Rightarrow> nat \<Rightarrow> int" where
  "index_of b i = (case num b of Some n \<Rightarrow> n | None \<Rightarrow> int i + 1)"

text \<open>
  Lines 259 to 295: the four tests that push on \<^verbatim>\<open>unparsed\<close>, in order. The
  array is passed in and returned.
\<close>

definition block_diagnostics ::
  "Block \<Rightarrow> int \<Rightarrow> jsstring \<Rightarrow> ChoiceOut list \<Rightarrow> Unparsed list \<Rightarrow> Unparsed list" where
  "block_diagnostics b idx plainStem cs u =
     (let u1 = (if num b = None then
                  u @ [\<lparr>index = None, reason = str ''no-number'',
                        sample = Some (take 120 (case lines b of [] \<Rightarrow> [] | l # ls \<Rightarrow> ltext l)),
                        unote = None\<rparr>]
                else u);
          u2 = (if plainStem = [] \<or> length (filter (\<lambda>c. \<not> is_space c) plainStem) < 3 then
                  u1 @ [\<lparr>index = Some idx, reason = str ''empty-stem'',
                         sample = Some (take 140 (join (str '' '') (map ltext (lines b)))),
                         unote = None\<rparr>]
                else u1);
          u3 = (if length cs = 1 then
                  u2 @ [\<lparr>index = Some idx, reason = str ''incomplete-choices'',
                         sample = Some (take 100 (ctext (hd cs))),
                         unote = Some (str ''found 1 choice'')\<rparr>]
                else u2)
      in if 8 < length cs then
           u3 @ [\<lparr>index = Some idx, reason = str ''too-many-choices'', sample = None,
                  unote = Some (String_of (int (length cs)))\<rparr>]
         else u3)"

text \<open>Lines 253 to 257 and 297 to 308: the object pushed on \<^verbatim>\<open>out\<close>.\<close>

definition question_of :: "int \<Rightarrow> jsstring \<Rightarrow> ChoiceOut list \<Rightarrow> QuestionOut" where
  "question_of idx plainStem cs =
     \<lparr>qid = str ''Q'' @ String_of idx,
      qindex = idx,
      qtype = type_of cs,
      category = str ''Uncategorized'',
      stem = plainStem,
      media = \<lparr>mtype = str ''image'',
               url = str ''/images/2018/B/q'' @ String_of idx @ str ''.png'',
               alt = []\<rparr>,
      qchoices = (if cs \<noteq> [] then cs else []),
      qanswer = []\<rparr>"

text \<open>
  The callback of \<^verbatim>\<open>blocks.forEach((b, i) => ...)\<close>: the state is the pair of the
  arrays \<^verbatim>\<open>out\<close> and \<^verbatim>\<open>unparsed\<close>. The \<open>answer\<close> of the classification is
  not read.
\<close>

definition convert_block ::
  "cheerio \<Rightarrow> Block \<Rightarrow> nat \<Rightarrow> QuestionOut list \<times> Unparsed list \<Rightarrow> QuestionOut list \<times> Unparsed list" where
  "convert_block ch b i st =
     (case st of
        (out, u) \<Rightarrow>
          (let c = classify ch b;
               idx = index_of b i;
               plainStem = plainStem_of ch (stemParts c)
           in (out @ [question_of idx plainStem (choices c)],
               block_diagnostics b idx plainStem (choices c) u)))"

fun convert_blocks ::
  "cheerio \<Rightarrow> Block list \<Rightarrow> nat \<Rightarrow> QuestionOut list \<times> Unparsed list \<Rightarrow> QuestionOut list \<times> Unparsed list" where
  "convert_blocks ch [] i st = st"
| "convert_blocks ch (b # bs) i st = convert_blocks ch bs (Suc i) (convert_block ch b i st)"

section \<open>The conversion\<close>

text \<open>
  \<^verbatim>\<open>unparsed\<close> is a constant of the module (line 41), not a variable of
  \<^verbatim>\<open>POST\<close>: a call finds in it what earlier calls pushed. \<open>convert ch lns u0\<close> is
  the work of one call from \<^verbatim>\<open>lines\<close> on, started with \<open>u0\<close> in the array; the
  \<open>unparsed\<close> of its result is the array after the call.
\<close>

definition emitted_blocks :: "Line list \<Rightarrow> Block list" where
  "emitted_blocks lns = fallback lns (segment lns)"

definition convert :: "cheerio \<Rightarrow> Line list \<Rightarrow> Unparsed list \<Rightarrow> DiagnosticsPayload" where
  "convert ch lns u0 =
     (let bs1 = emitted_blocks lns;
          u1 = auditNumbers bs1 u0;
          bs2 = fallback lns bs1
      in case convert_blocks ch bs2 0 ([], u1) of
           (out, u2) \<Rightarrow>
             \<lparr>questions = out, unparsed = u2,
              stats = \<lparr>totalBlocks = length bs2, parsed = length out,
                       unparsed_count = length u2\<rparr>\<rparr>)"

text \<open>
  What the route answers from \<^verbatim>\<open>lines\<close> on: the payload when the form field
  \<^verbatim>\<open>withDiagnostics\<close> is \<^verbatim>\<open>"1"\<close>, the bare array of questions otherwise;
  with it, the module's array after the call.
\<close>

datatype response = Diagnostics DiagnosticsPayload | Plain "QuestionOut list"

definition POST :: "cheerio \<Rightarrow> bool \<Rightarrow> Line list \<Rightarrow> Unparsed list \<Rightarrow> response \<times> Unparsed list" where
  "POST ch withDiagnostics lns u0 =
     (let p = convert ch lns u0 in
      (if withDiagnostics then Diagnostics p else Plain (questions p), unparsed p))"

section \<open>Notions used by the statements\<close>

text \<open>
  The question and the diagnostic entries that the callback of \<^verbatim>\<open>blocks.forEach\<close>
  produces for the block \<open>b\<close> at position \<open>i\<close>.
\<close>

definition question_at :: "cheerio \<Rightarrow> Block \<Rightarrow> nat \<Rightarrow> QuestionOut" where
  "question_at ch b i =
     question_of (index_of b i) (plainStem_of ch (stemParts (classify ch b)))
       (choices (classify ch b))"

definition diagnostics_at :: "cheerio \<Rightarrow> Block \<Rightarrow> nat \<Rightarrow> Unparsed list" where
  "diagnostics_at ch b i =
     block_diagnostics b (index_of b i) (plainStem_of ch (stemParts (classify ch b)))
       (choices (classify ch b)) []"


text \<open>The numbers that the blocks declare, in the order of the blocks, with repetitions.\<close>

definition declared :: "Block list \<Rightarrow> int list" where
  "declared bs = concat (map (\<lambda>b. case num b of None \<Rightarrow> [] | Some n \<Rightarrow> [n]) bs)"

text \<open>The positions of the blocks that declare the number \<open>n\<close>.\<close>

definition declaring :: "Block list \<Rightarrow> int \<Rightarrow> nat list" where
  "declaring bs n = filter (\<lambda>k. num (bs ! k) = Some n) [0 ..< length bs]"








text \<open>A block whose number, when it has one, is not negative.\<close>

definition nonneg_num :: "Block \<Rightarrow> bool" where
  "nonneg_num b = (case num b of None \<Rightarrow> True | Some n \<Rightarrow> 0 \<le> n)"

text \<open>
  A parser to run the model on concrete documents: it returns the text outside the tags.
  On a paragraph without markup and without character references this is what the
  library returns for both of its uses. The theorems hold for every parser.
\<close>

fun drop_tags :: "bool \<Rightarrow> jsstring \<Rightarrow> jsstring" where
  "drop_tags inside [] = []"
| "drop_tags inside (c # cs) =
     (if inside then drop_tags (c \<noteq> cu CHR ''>'') cs
      else if c = cu CHR ''<'' then drop_tags True cs
      else c # drop_tags False cs)"

definition text_only :: cheerio where
  "text_only = \<lparr>root_text = drop_tags False, unwrapped_text = drop_tags False\<rparr>"

text \<open>A paragraph without markup: its inner HTML is its text.\<close>

definition plain_line :: "string \<Rightarrow> Line" where
  "plain_line s = \<lparr>html = str s, ltext = str s\<rparr>"

text \<open>Example documents, made of paragraphs without markup.\<close>

definition ex_one_choice :: "Line list" where
  "ex_one_choice = map plain_line [''1. Why?'', ''A. x'', ''Answer: A'']"

definition ex_unnumbered :: "Line list" where
  "ex_unnumbered = [plain_line ''Hello'']"

definition ex_duplicate :: "Line list" where
  "ex_duplicate = map plain_line [''5. a'', ''5. b'']"

definition ex_gap :: "Line list" where
  "ex_gap = map plain_line [''1. abc'', ''3. def'']"




definition ex_two_digits :: "Line list" where
  "ex_two_digits = map plain_line [''12. a'', ''12. b'']"

text \<open>The first example of the specification.\<close>

definition ex_spec :: "Line list" where
  "ex_spec = map plain_line [''1. What is 2+2?'', ''A. 3'', ''B. 4'', ''Answer: B'']"

section \<open>Rules for running the model\<close>

lemmas char_eval = str_def cu_def is_space_def is_digit_def is_A_H_def is_line_terminator_def
  canon_def is_word_char_def is_tab_def
lemmas rx_eval = trim_def after_marker_def Q_START_def CHOICE_prefix_def CHOICE_def
  body_at_def ANSWER_tail_def ANSWER_keyword_def ANSWER_def
lemmas seg_eval = segment_def segment_step_def pushCur_def parseInt_def emitted_blocks_def
  fallback_def plain_line_def pop_blank.simps
lemmas block_eval = classify_def classify_line_def toUpperCase_def stripPrefix_def
  cleanChoiceHtml_def collapse_text_def text_only_def normalizeAnswer_def
  index_of_def plainStem_of_def toPlainStem_def question_of_def block_diagnostics_def
  type_of_def String_of_def question_at_def diagnostics_at_def digits_of.simps br_units.simps

section \<open>Decimal digits\<close>

text \<open>
  \<open>String_of\<close> writes a number that is not negative with decimal digits only, and
  \<open>parseInt\<close> reads the number back.
\<close>

lemma unat_digit:
  assumes "d < 10"
  shows "unat (word_of_nat (48 + d) :: code_unit) = 48 + d"
proof -
  have "unat (word_of_nat (48 + d) :: code_unit) = (48 + d) mod 2 ^ LENGTH(16)"
    by (rule unat_of_nat)
  with assms show ?thesis
    by simp
qed

lemma is_digit_of: "d < 10 \<Longrightarrow> is_digit (word_of_nat (48 + d))"
  by (simp add: is_digit_def unat_digit del: of_nat_add)

lemma digit_value:
  assumes "d < 10"
  shows "uint (word_of_nat (48 + d) :: code_unit) - 48 = int d"
proof -
  have "uint (word_of_nat (48 + d) :: code_unit) = int (unat (word_of_nat (48 + d) :: code_unit))"
    by simp
  also have "\<dots> = int (48 + d)"
    by (simp only: unat_digit [OF assms])
  finally show ?thesis
    by simp
qed

lemma digits_of_digits: "list_all is_digit (digits_of n)"
proof (induction n rule: digits_of.induct)
  case (1 n)
  show ?case
  proof (cases "n < 10")
    case True
    then show ?thesis
      by (subst digits_of.simps) (simp add: is_digit_of del: of_nat_add)
  next
    case False
    have "n mod 10 < 10"
      by simp
    then have "is_digit (word_of_nat (48 + n mod 10))"
      by (rule is_digit_of)
    with False "1.IH" show ?thesis
      by (subst digits_of.simps) (simp del: of_nat_add)
  qed
qed

lemma parseInt_snoc: "parseInt (ds @ [d]) = 10 * parseInt ds + (int (unat d) - 48)"
  by (simp add: parseInt_def)

lemma parseInt_digits_of: "parseInt (digits_of n) = int n"
proof (induction n rule: digits_of.induct)
  case (1 n)
  show ?case
  proof (cases "n < 10")
    case True
    then show ?thesis
      by (subst digits_of.simps) (simp add: parseInt_def digit_value del: of_nat_add)
  next
    case False
    have "n mod 10 < 10"
      by simp
    then have "uint (word_of_nat (48 + n mod 10) :: code_unit) - 48 = int (n mod 10)"
      by (rule digit_value)
    with False "1.IH" have "parseInt (digits_of n) = 10 * int (n div 10) + int (n mod 10)"
      by (subst digits_of.simps) (simp add: parseInt_snoc del: of_nat_add)
    then show ?thesis
      by (simp add: zmod_int zdiv_int)
  qed
qed

lemma String_of_decimal:
  "0 \<le> i \<Longrightarrow> list_all is_digit (String_of i) \<and> parseInt (String_of i) = i"
  by (simp add: String_of_def digits_of_digits parseInt_digits_of)

lemma digits_of_nonempty: "digits_of n \<noteq> []"
  by (subst digits_of.simps) simp

lemma digits_of_single: "1 < length (digits_of n) \<Longrightarrow> 10 \<le> n"
  by (rule ccontr) (simp add: digits_of.simps [of n])

lemma hd_digits_of: "0 < n \<Longrightarrow> hd (digits_of n) \<noteq> cu CHR ''0''"
proof (induction n rule: digits_of.induct)
  case (1 n)
  show ?case
  proof (cases "n < 10")
    case True
    have "unat (word_of_nat (48 + n) :: code_unit) = 48 + n"
      using True by (rule unat_digit)
    moreover have "unat (cu CHR ''0'') = 48"
      by (simp add: cu_def)
    ultimately have "(word_of_nat (48 + n) :: code_unit) \<noteq> cu CHR ''0''"
      using "1.prems" by auto
    with True show ?thesis
      by (subst digits_of.simps) (simp del: of_nat_add)
  next
    case False
    then have "0 < n div 10"
      by simp
    with False "1.IH" have "hd (digits_of (n div 10)) \<noteq> cu CHR ''0''"
      by simp
    with False show ?thesis
      by (subst digits_of.simps) (simp add: digits_of_nonempty)
  qed
qed

lemma String_of_canonical:
  assumes "0 \<le> i"
  shows "String_of i \<noteq> []" and "list_all is_digit (String_of i)"
    and "parseInt (String_of i) = i"
    and "1 < length (String_of i) \<longrightarrow> hd (String_of i) \<noteq> cu CHR ''0''"
proof -
  from assms show "String_of i \<noteq> []" and "list_all is_digit (String_of i)"
    and "parseInt (String_of i) = i"
    by (simp_all add: String_of_def digits_of_nonempty digits_of_digits parseInt_digits_of)
  show "1 < length (String_of i) \<longrightarrow> hd (String_of i) \<noteq> cu CHR ''0''"
  proof
    assume "1 < length (String_of i)"
    with assms have "10 \<le> nat i"
      by (simp add: String_of_def digits_of_single)
    then have "hd (digits_of (nat i)) \<noteq> cu CHR ''0''"
      by (intro hd_digits_of) simp
    with assms show "hd (String_of i) \<noteq> cu CHR ''0''"
      by (simp add: String_of_def)
  qed
qed

lemma digit_nonneg: "is_digit c \<Longrightarrow> 0 \<le> int (unat c) - 48"
  unfolding is_digit_def Let_def by linarith

lemma foldl_digits_nonneg:
  "0 \<le> a \<Longrightarrow> list_all is_digit ds \<Longrightarrow>
   0 \<le> foldl (\<lambda>a c. 10 * a + (int (unat c) - 48)) a ds"
proof (induction ds arbitrary: a)
  case Nil
  then show ?case by simp
next
  case (Cons d ds)
  from Cons.prems have "0 \<le> int (unat d) - 48"
    using digit_nonneg [of d] by simp
  with Cons.prems have "0 \<le> 10 * a + (int (unat d) - 48)"
    by linarith
  from Cons.IH [OF this] Cons.prems show ?case
    by simp
qed

lemma parseInt_nonneg: "list_all is_digit ds \<Longrightarrow> 0 \<le> parseInt ds"
  unfolding parseInt_def by (rule foldl_digits_nonneg) simp_all

section \<open>The conversion in closed form\<close>

lemma fallback_idem: "fallback lns (fallback lns bs) = fallback lns bs"
  by (simp add: fallback_def)

lemma convert_block_eq:
  "convert_block ch b i (out, u) =
     (out @ [question_at ch b i],
      block_diagnostics b (index_of b i) (plainStem_of ch (stemParts (classify ch b)))
        (choices (classify ch b)) u)"
  by (simp add: convert_block_def question_at_def Let_def)

lemma block_diagnostics_append:
  "block_diagnostics b idx ps cs u = u @ block_diagnostics b idx ps cs []"
  by (simp add: block_diagnostics_def Let_def)

lemma convert_block_pair:
  "convert_block ch b i (out, u) = (out @ [question_at ch b i], u @ diagnostics_at ch b i)"
  unfolding convert_block_eq diagnostics_at_def
  by (subst block_diagnostics_append) simp

lemma convert_blocks_pair:
  "convert_blocks ch bs i (out, u) =
     (out @ map (\<lambda>k. question_at ch (bs ! k) (i + k)) [0 ..< length bs],
      u @ concat (map (\<lambda>k. diagnostics_at ch (bs ! k) (i + k)) [0 ..< length bs]))"
proof (induction bs arbitrary: i out u)
  case Nil
  show ?case by simp
next
  case (Cons b bs)
  have "convert_blocks ch (b # bs) i (out, u) =
      convert_blocks ch bs (Suc i) (out @ [question_at ch b i], u @ diagnostics_at ch b i)"
    by (simp add: convert_block_pair)
  also have "\<dots> = ((out @ [question_at ch b i]) @ map (\<lambda>k. question_at ch (bs ! k) (Suc i + k)) [0 ..< length bs],
      (u @ diagnostics_at ch b i) @ concat (map (\<lambda>k. diagnostics_at ch (bs ! k) (Suc i + k)) [0 ..< length bs]))"
    by (rule Cons.IH)
  also have "\<dots> = (out @ map (\<lambda>k. question_at ch ((b # bs) ! k) (i + k)) [0 ..< length (b # bs)],
      u @ concat (map (\<lambda>k. diagnostics_at ch ((b # bs) ! k) (i + k)) [0 ..< length (b # bs)]))"
    by (simp add: map_upt_Suc del: upt_Suc)
  finally show ?case .
qed


lemma missing_loop_eq:
  "missing_loop present i mx u = u @ map missing_entry (filter (\<lambda>k. k \<notin> set present) [i .. mx])"
proof (induction present i mx u rule: missing_loop.induct)
  case (1 present i mx u)
  show ?case
  proof (cases "i \<le> mx")
    case True
    then have "[i .. mx] = i # [i + 1 .. mx]"
      by (simp add: upto_rec1)
    with True "1.IH" show ?thesis
      by (subst missing_loop.simps) simp
  next
    case False
    then show ?thesis
      by (subst missing_loop.simps) simp
  qed
qed

lemma auditNumbers_append: "auditNumbers bs u = u @ auditNumbers bs []"
  by (simp add: auditNumbers_def Let_def missing_loop_eq split: prod.splits)

lemma convert_eq:
  "convert ch lns u0 =
     (let bs = emitted_blocks lns;
          out = map (\<lambda>k. question_at ch (bs ! k) k) [0 ..< length bs];
          u = u0 @ auditNumbers bs [] @ concat (map (\<lambda>k. diagnostics_at ch (bs ! k) k) [0 ..< length bs])
      in \<lparr>questions = out, unparsed = u,
          stats = \<lparr>totalBlocks = length bs, parsed = length out, unparsed_count = length u\<rparr>\<rparr>)"
  unfolding convert_def emitted_blocks_def fallback_idem Let_def convert_blocks_pair
  by (subst auditNumbers_append) simp

lemma questions_convert:
  "questions (convert ch lns u0) =
     map (\<lambda>k. question_at ch (emitted_blocks lns ! k) k) [0 ..< length (emitted_blocks lns)]"
  by (simp add: convert_eq Let_def)

lemma unparsed_convert:
  "unparsed (convert ch lns u0) =
     u0 @ auditNumbers (emitted_blocks lns) [] @
     concat (map (\<lambda>k. diagnostics_at ch (emitted_blocks lns ! k) k)
       [0 ..< length (emitted_blocks lns)])"
  by (simp add: convert_eq Let_def)

lemma stats_convert:
  "stats (convert ch lns u0) =
     \<lparr>totalBlocks = length (emitted_blocks lns), parsed = length (questions (convert ch lns u0)),
      unparsed_count = length (unparsed (convert ch lns u0))\<rparr>"
  by (simp add: convert_eq Let_def)

text \<open>
  What a call owes to the calls before it: nothing in the questions; in the array
  \<^verbatim>\<open>unparsed\<close>, the entries they left, in front of its own.
\<close>

lemma questions_ignore_earlier_calls:
  "questions (convert ch lns u0) = questions (convert ch lns [])"
  by (simp add: questions_convert)

lemma unparsed_keeps_earlier_calls:
  "unparsed (convert ch lns u0) = u0 @ unparsed (convert ch lns [])"
  by (simp add: unparsed_convert)

lemma emitted_blocks_nonempty: "lns \<noteq> [] \<Longrightarrow> emitted_blocks lns \<noteq> []"
  by (simp add: emitted_blocks_def fallback_def)

lemma diagnostics_in_unparsed:
  assumes "k < length (emitted_blocks lns)"
  shows "set (diagnostics_at ch (emitted_blocks lns ! k) k) \<subseteq> set (unparsed (convert ch lns u0))"
proof -
  from assms have "k \<in> set [0 ..< length (emitted_blocks lns)]"
    by simp
  then show ?thesis
    unfolding unparsed_convert by (auto simp del: upt_Suc)
qed

lemma incomplete_entry:
  "length (choices (classify ch b)) = 1 \<Longrightarrow>
   \<lparr>index = Some (index_of b i), reason = str ''incomplete-choices'',
    sample = Some (take 100 (ctext (hd (choices (classify ch b))))),
    unote = Some (str ''found 1 choice'')\<rparr> \<in> set (diagnostics_at ch b i)"
  by (simp add: diagnostics_at_def block_diagnostics_def Let_def)

section \<open>The numbering audit in closed form\<close>

lemma declared_Cons:
  "declared (b # bs) = (case num b of None \<Rightarrow> [] | Some n \<Rightarrow> [n]) @ declared bs"
  by (simp add: declared_def)

lemma declared_Nil: "declared [] = []"
  by (simp add: declared_def)

lemma count_ge2_in_set: "2 \<le> count_list xs x \<Longrightarrow> x \<in> set xs"
  by (rule ccontr) simp

lemma count_in_set: "x \<in> set xs \<Longrightarrow> Suc 0 \<le> count_list xs x"
  using count_list_0_iff [of xs x] by simp

lemma number_sets_inv:
  "number_sets bs (p0, d0) = (p, d) \<Longrightarrow> distinct p0 \<Longrightarrow> distinct d0 \<Longrightarrow>
   distinct p \<and> distinct d \<and> set p = set p0 \<union> set (declared bs) \<and>
   set d = set d0 \<union> {n. (n \<in> set p0 \<and> n \<in> set (declared bs)) \<or> 2 \<le> count_list (declared bs) n}"
proof (induction bs arbitrary: p0 d0)
  case Nil
  then show ?case by (simp add: declared_def)
next
  case (Cons b bs)
  show ?case
  proof (cases "num b")
    case None
    with Cons.prems have "number_sets bs (p0, d0) = (p, d)"
      by simp
    from Cons.IH [OF this Cons.prems(2,3)] None show ?thesis
      by (simp add: declared_Cons)
  next
    case (Some n)
    show ?thesis
    proof (cases "n \<in> set p0")
      case True
      with Some Cons.prems have run: "number_sets bs (p0, set_add n d0) = (p, d)"
        by simp
      have "distinct (set_add n d0)"
        using Cons.prems(3) by (simp add: set_add_def)
      from Cons.IH [OF run Cons.prems(2) this] True Some show ?thesis
        by (auto simp: declared_Cons set_add_def dest: count_ge2_in_set)
    next
      case False
      with Some Cons.prems have run: "number_sets bs (set_add n p0, d0) = (p, d)"
        by simp
      have "distinct (set_add n p0)"
        using Cons.prems(2) by (simp add: set_add_def)
      from Cons.IH [OF run this Cons.prems(3)] False Some show ?thesis
        by (auto simp: declared_Cons set_add_def dest: count_ge2_in_set count_in_set)
    qed
  qed
qed

lemma number_sets_fresh:
  assumes "number_sets bs ([], []) = (p, d)"
  shows "distinct p" and "distinct d" and "set p = set (declared bs)"
    and "set d = {n. 2 \<le> count_list (declared bs) n}"
  using number_sets_inv [OF assms] by simp_all

lemma hd_sorted_Min: "sorted xs \<Longrightarrow> xs \<noteq> [] \<Longrightarrow> hd xs = Min (set xs)"
  by (cases xs) (auto intro!: Min_eqI [symmetric])

lemma last_sorted_Max: "sorted xs \<Longrightarrow> xs \<noteq> [] \<Longrightarrow> last xs = Max (set xs)"
proof (rule Max_eqI [symmetric])
  fix y
  assume s: "sorted xs" and ne: "xs \<noteq> []" and "y \<in> set xs"
  then obtain i where "i < length xs" and "y = xs ! i"
    by (auto simp: in_set_conv_nth)
  with s ne show "y \<le> last xs"
    by (simp add: last_conv_nth sorted_nth_mono)
qed simp_all

lemma auditNumbers_closed:
  "auditNumbers bs [] =
     map duplicate_entry (snd (number_sets bs ([], []))) @
     (if declared bs = [] then []
      else map missing_entry
        (filter (\<lambda>i. i \<notin> set (declared bs)) [Min (set (declared bs)) .. Max (set (declared bs))]))"
proof -
  obtain p d where run: "number_sets bs ([], []) = (p, d)"
    by (cases "number_sets bs ([], [])")
  note facts = number_sets_fresh [OF run]
  have empty: "p = [] \<longleftrightarrow> declared bs = []"
    using facts(3) by (metis set_empty)
  have ne: "p \<noteq> [] \<Longrightarrow> sort p \<noteq> []"
    by (metis set_sort set_empty)
  have "p \<noteq> [] \<Longrightarrow> hd (sort p) = Min (set (declared bs))"
    using hd_sorted_Min [of "sort p"] facts(3) ne by simp
  moreover have "p \<noteq> [] \<Longrightarrow> last (sort p) = Max (set (declared bs))"
    using last_sorted_Max [of "sort p"] facts(3) ne by simp
  ultimately show ?thesis
    using empty facts(3) by (simp add: auditNumbers_def run missing_loop_eq Let_def)
qed


lemma reason_tags_differ:
  "str ''duplicate-number'' \<noteq> str ''missing-number''"
  "str ''no-number'' \<noteq> str ''duplicate-number''"
  "str ''empty-stem'' \<noteq> str ''duplicate-number''"
  "str ''incomplete-choices'' \<noteq> str ''duplicate-number''"
  "str ''too-many-choices'' \<noteq> str ''duplicate-number''"
  by (simp_all add: str_def cu_def)


lemma count_list_filter_length: "length (filter (\<lambda>x. x = n) xs) = count_list xs n"
  by (induction xs) auto

lemma count_distinct: "distinct xs \<Longrightarrow> count_list xs n = (if n \<in> set xs then 1 else 0)"
  by (induction xs) auto

lemma filter_duplicate_entries:
  "filter (\<lambda>e. reason e = str ''duplicate-number'' \<and> index e = Some n) (map duplicate_entry d) =
     map duplicate_entry (filter (\<lambda>x. x = n) d)"
  by (induction d) (auto simp: duplicate_entry_def)

lemma filter_missing_entries_dup:
  "filter (\<lambda>e. reason e = str ''duplicate-number'' \<and> index e = Some n) (map missing_entry xs) = []"
  using reason_tags_differ(1) by (induction xs) (auto simp: missing_entry_def)

lemma filter_duplicate_entries_missing:
  "filter (\<lambda>e. reason e = str ''missing-number'') (map duplicate_entry d) = []"
  using reason_tags_differ(1) by (induction d) (auto simp: duplicate_entry_def)

lemma filter_missing_entries:
  "filter (\<lambda>e. reason e = str ''missing-number'') (map missing_entry xs) = map missing_entry xs"
  by (induction xs) (auto simp: missing_entry_def)

lemma filter_missing_entries_index:
  "filter (\<lambda>e. reason e = str ''missing-number'' \<and> index e = Some i) (map missing_entry xs) =
     map missing_entry (filter (\<lambda>x. x = i) xs)"
  by (induction xs) (auto simp: missing_entry_def)

lemma count_declared: "count_list (declared bs) n = length (filter (\<lambda>b. num b = Some n) bs)"
  by (induction bs) (auto simp: declared_Nil declared_Cons split: option.splits)

lemma length_declaring: "length (declaring bs n) = count_list (declared bs) n"
proof -
  have "filter (\<lambda>b. num b = Some n) (map ((!) bs) [0 ..< length bs]) =
      map ((!) bs) (declaring bs n)"
    by (simp add: filter_map declaring_def comp_def)
  then have "length (filter (\<lambda>b. num b = Some n) bs) = length (declaring bs n)"
    by (simp add: map_nth)
  then show ?thesis
    by (simp add: count_declared)
qed

lemma declaring_pair:
  assumes "declaring bs n = [i, j]"
  shows "i < j" and "j < length bs" and "num (bs ! i) = Some n" and "num (bs ! j) = Some n"
proof -
  have "sorted_wrt (<) (declaring bs n)"
    unfolding declaring_def by (rule sorted_wrt_filter) simp
  with assms show "i < j"
    by simp
  have "j \<in> set (declaring bs n)" and "i \<in> set (declaring bs n)"
    using assms by simp_all
  then show "j < length bs" and "num (bs ! i) = Some n" and "num (bs ! j) = Some n"
    by (simp_all add: declaring_def)
qed

lemma duplicate_count:
  assumes "2 \<le> count_list (declared bs) n"
  shows "length (filter (\<lambda>e. reason e = str ''duplicate-number'' \<and> index e = Some n)
           (auditNumbers bs [])) = 1"
proof -
  obtain p d where run: "number_sets bs ([], []) = (p, d)"
    by (cases "number_sets bs ([], [])")
  note facts = number_sets_fresh [OF run]
  from assms facts(4) have "n \<in> set d"
    by simp
  with facts(2) have "count_list d n = 1"
    by (simp add: count_distinct)
  then show ?thesis
    by (simp add: auditNumbers_closed run filter_duplicate_entries filter_missing_entries_dup
        count_list_filter_length)
qed

lemma diagnostics_at_no_duplicate:
  "filter (\<lambda>e. reason e = str ''duplicate-number'' \<and> index e = Some n) (diagnostics_at ch b i) = []"
  using reason_tags_differ
  by (simp add: diagnostics_at_def block_diagnostics_def Let_def)


lemma concat_filter_empty:
  "(\<And>x. x \<in> set xs \<Longrightarrow> filter P (f x) = []) \<Longrightarrow> filter P (concat (map f xs)) = []"
  by (induction xs) auto

lemma count_in_filtered:
  assumes "distinct xs"
  shows "length (filter (\<lambda>x. x = i) (filter Q xs)) = (if i \<in> set xs \<and> Q i then 1 else 0)"
proof -
  have "distinct (filter Q xs)"
    using assms by simp
  then have "count_list (filter Q xs) i = (if i \<in> set (filter Q xs) then 1 else 0)"
    by (rule count_distinct)
  then show ?thesis
    unfolding count_list_filter_length [symmetric] by auto
qed

section \<open>The stem accumulator only grows\<close>



section \<open>Documents that differ on answer lines\<close>


lemma trim_Nil:
  assumes "dropWhile is_space s = []"
  shows "trim s = []"
  unfolding trim_def assms by simp




























section \<open>The numbers of the blocks are not negative\<close>

lemma Q_START_digits: "Q_START s = Some (ds, r) \<Longrightarrow> list_all is_digit ds"
  by (auto simp: Q_START_def Let_def list_all_iff split: if_splits option.splits
      dest: set_takeWhileD)

lemma pushCur_nonneg:
  assumes "\<forall>b \<in> set (blocks s). nonneg_num b" and "\<forall>c. cur s = Some c \<longrightarrow> nonneg_num c"
  shows "\<forall>b \<in> set (blocks (pushCur s)). nonneg_num b"
proof (cases "cur s")
  case None
  with assms(1) show ?thesis
    by (simp add: pushCur_def)
next
  case (Some c)
  with assms(2) have "nonneg_num c"
    by simp
  then have "nonneg_num (c\<lparr>lines := pop_blank (lines c)\<rparr>)"
    by (simp add: nonneg_num_def)
  with Some assms(1) show ?thesis
    by (simp add: pushCur_def Let_def)
qed

lemma segment_step_nonneg:
  assumes "\<forall>b \<in> set (blocks s). nonneg_num b" and "\<forall>c. cur s = Some c \<longrightarrow> nonneg_num c"
  shows "(\<forall>b \<in> set (blocks (segment_step ln s)). nonneg_num b) \<and>
    (\<forall>c. cur (segment_step ln s) = Some c \<longrightarrow> nonneg_num c)"
proof (cases "Q_START (ltext ln)")
  case None
  with assms show ?thesis
    by (auto simp: segment_step_def nonneg_num_def split: option.splits)
next
  case (Some m)
  obtain ds r where m: "m = (ds, r)"
    by (cases m)
  with Some have "0 \<le> parseInt ds"
    using Q_START_digits parseInt_nonneg by blast
  with Some m pushCur_nonneg [OF assms] show ?thesis
    by (simp add: segment_step_def nonneg_num_def)
qed

lemma segment_loop_nonneg:
  "\<forall>b \<in> set (blocks s). nonneg_num b \<Longrightarrow> \<forall>c. cur s = Some c \<longrightarrow> nonneg_num c \<Longrightarrow>
   (\<forall>b \<in> set (blocks (segment_loop lns s)). nonneg_num b) \<and>
   (\<forall>c. cur (segment_loop lns s) = Some c \<longrightarrow> nonneg_num c)"
proof (induction lns arbitrary: s)
  case Nil
  then show ?case by simp
next
  case (Cons ln lns)
  have step: "(\<forall>b \<in> set (blocks (segment_step ln s)). nonneg_num b) \<and>
      (\<forall>c. cur (segment_step ln s) = Some c \<longrightarrow> nonneg_num c)"
    using Cons.prems by (rule segment_step_nonneg)
  from step have a: "\<forall>b \<in> set (blocks (segment_step ln s)). nonneg_num b" ..
  from step have b: "\<forall>c. cur (segment_step ln s) = Some c \<longrightarrow> nonneg_num c" ..
  show ?case
    unfolding segment_loop.simps using a b by (rule Cons.IH)
qed

lemma segment_nonneg: "\<forall>b \<in> set (segment lns). nonneg_num b"
proof -
  let ?s = "segment_loop lns \<lparr>blocks = [], cur = None\<rparr>"
  have inv: "(\<forall>b \<in> set (blocks ?s). nonneg_num b) \<and> (\<forall>c. cur ?s = Some c \<longrightarrow> nonneg_num c)"
    by (rule segment_loop_nonneg) simp_all
  from inv have a: "\<forall>b \<in> set (blocks ?s). nonneg_num b" ..
  from inv have b: "\<forall>c. cur ?s = Some c \<longrightarrow> nonneg_num c" ..
  show ?thesis
    unfolding segment_def using a b by (rule pushCur_nonneg)
qed

lemma emitted_blocks_nonneg:
  assumes "b \<in> set (emitted_blocks lns)"
  shows "nonneg_num b"
proof (cases "segment lns = [] \<and> lns \<noteq> []")
  case True
  with assms have "b = \<lparr>num = None, lines = lns\<rparr>"
    by (simp add: emitted_blocks_def fallback_def)
  then show ?thesis
    by (simp add: nonneg_num_def)
next
  case False
  then have "emitted_blocks lns = segment lns"
    by (simp add: emitted_blocks_def fallback_def)
  with assms segment_nonneg show ?thesis
    by simp
qed

lemma index_of_nonneg: "nonneg_num b \<Longrightarrow> 0 \<le> index_of b i"
  by (simp add: nonneg_num_def index_of_def split: option.splits)

lemma question_of_block:
  assumes "q \<in> set (questions (convert ch lns u0))"
  shows "\<exists>k < length (emitted_blocks lns). q = question_at ch (emitted_blocks lns ! k) k"
  using assms unfolding questions_convert by (auto simp del: upt_Suc)

lemma qindex_nonneg:
  assumes "q \<in> set (questions (convert ch lns u0))"
  shows "0 \<le> qindex q"
proof -
  from question_of_block [OF assms] obtain k where k: "k < length (emitted_blocks lns)"
    and q: "q = question_at ch (emitted_blocks lns ! k) k"
    by blast
  from k have "emitted_blocks lns ! k \<in> set (emitted_blocks lns)"
    by (rule nth_mem)
  then have "nonneg_num (emitted_blocks lns ! k)"
    by (rule emitted_blocks_nonneg)
  then show ?thesis
    unfolding q by (simp add: question_at_def question_of_def index_of_nonneg)
qed

section \<open>The answer is not read, and what the samples hold\<close>







section \<open>The example documents, run\<close>

lemma ex_one_choice_blocks:
  "emitted_blocks ex_one_choice = [\<lparr>num = Some 1, lines = ex_one_choice\<rparr>]"
  by (simp add: ex_one_choice_def seg_eval char_eval rx_eval)

lemma ex_one_choice_classify:
  "classify text_only \<lparr>num = Some 1, lines = ex_one_choice\<rparr> =
     \<lparr>stemParts = [str ''Why?''], choices = [\<lparr>key = str ''A'', ctext = str ''x''\<rparr>],
      currentChoice = None, answer = Some (str ''A'')\<rparr>"
  by (simp add: ex_one_choice_def plain_line_def block_eval char_eval rx_eval)

lemma ex_one_choice_stem: "plainStem_of text_only [str ''Why?''] = str ''Why?''"
  by (simp add: block_eval char_eval rx_eval)

lemma ex_one_choice_question:
  "question_at text_only \<lparr>num = Some 1, lines = ex_one_choice\<rparr> 0 =
     \<lparr>qid = str ''Q1'', qindex = 1, qtype = FREE_RESPONSE, category = str ''Uncategorized'',
      stem = str ''Why?'',
      media = \<lparr>mtype = str ''image'', url = str ''/images/2018/B/q1.png'', alt = []\<rparr>,
      qchoices = [\<lparr>key = str ''A'', ctext = str ''x''\<rparr>], qanswer = []\<rparr>"
  unfolding question_at_def ex_one_choice_classify classify_state.simps ex_one_choice_stem
  by (simp add: question_of_def index_of_def type_of_def String_of_def digits_of.simps
      str_def cu_def)

lemma ex_one_choice_diagnostics:
  "diagnostics_at text_only \<lparr>num = Some 1, lines = ex_one_choice\<rparr> 0 =
     [\<lparr>index = Some 1, reason = str ''incomplete-choices'', sample = Some (str ''x''),
       unote = Some (str ''found 1 choice'')\<rparr>]"
  unfolding diagnostics_at_def ex_one_choice_classify classify_state.simps ex_one_choice_stem
  by (simp add: block_diagnostics_def index_of_def str_def cu_def is_space_def)

lemma ex_one_choice_audit: "auditNumbers [\<lparr>num = Some 1, lines = ex_one_choice\<rparr>] [] = []"
  by (simp add: auditNumbers_def set_add_def missing_loop.simps)

lemma ex_one_choice_convert:
  "convert text_only ex_one_choice [] =
     \<lparr>questions =
        [\<lparr>qid = str ''Q1'', qindex = 1, qtype = FREE_RESPONSE, category = str ''Uncategorized'',
          stem = str ''Why?'',
          media = \<lparr>mtype = str ''image'', url = str ''/images/2018/B/q1.png'', alt = []\<rparr>,
          qchoices = [\<lparr>key = str ''A'', ctext = str ''x''\<rparr>], qanswer = []\<rparr>],
      unparsed =
        [\<lparr>index = Some 1, reason = str ''incomplete-choices'', sample = Some (str ''x''),
          unote = Some (str ''found 1 choice'')\<rparr>],
      stats = \<lparr>totalBlocks = 1, parsed = 1, unparsed_count = 1\<rparr>\<rparr>"
  by (simp add: convert_eq ex_one_choice_blocks ex_one_choice_question
      ex_one_choice_diagnostics ex_one_choice_audit)

lemma ex_unnumbered_segment: "segment ex_unnumbered = []"
  by (simp add: ex_unnumbered_def seg_eval char_eval rx_eval)

lemma ex_duplicate_blocks:
  "emitted_blocks ex_duplicate =
     [\<lparr>num = Some 5, lines = [plain_line ''5. a'']\<rparr>, \<lparr>num = Some 5, lines = [plain_line ''5. b'']\<rparr>]"
  by (simp add: ex_duplicate_def seg_eval char_eval rx_eval)

lemma ex_duplicate_declaring: "declaring (emitted_blocks ex_duplicate) 5 = [0, 1]"
  unfolding ex_duplicate_blocks by (simp add: declaring_def upt_conv_Cons)

lemma ex_duplicate_audit:
  "auditNumbers (emitted_blocks ex_duplicate) [] = [duplicate_entry 5]"
  unfolding ex_duplicate_blocks
  by (simp add: auditNumbers_def set_add_def missing_loop.simps)

lemma ex_gap_blocks:
  "emitted_blocks ex_gap =
     [\<lparr>num = Some 1, lines = [plain_line ''1. abc'']\<rparr>, \<lparr>num = Some 3, lines = [plain_line ''3. def'']\<rparr>]"
  by (simp add: ex_gap_def seg_eval char_eval rx_eval)

lemma ex_gap_declared: "declared (emitted_blocks ex_gap) = [1, 3]"
  unfolding ex_gap_blocks by (simp add: declared_def)

lemma upto_1_3: "[1 .. 3] = [1, 2, 3::int]"
  by (simp add: upto_rec1)

lemma ex_unnumbered_blocks: "emitted_blocks ex_unnumbered = [\<lparr>num = None, lines = ex_unnumbered\<rparr>]"
  by (simp add: emitted_blocks_def ex_unnumbered_segment fallback_def) (simp add: ex_unnumbered_def)

lemma ex_unnumbered_classify:
  "classify text_only \<lparr>num = None, lines = ex_unnumbered\<rparr> =
     \<lparr>stemParts = [str ''Hello''], choices = [], currentChoice = None, answer = None\<rparr>"
  by (simp add: ex_unnumbered_def plain_line_def block_eval char_eval rx_eval)

lemma ex_unnumbered_stem: "plainStem_of text_only [str ''Hello''] = str ''Hello''"
  by (simp add: block_eval char_eval rx_eval)

lemma ex_unnumbered_question:
  "question_at text_only \<lparr>num = None, lines = ex_unnumbered\<rparr> 0 =
     \<lparr>qid = str ''Q1'', qindex = 1, qtype = FREE_RESPONSE, category = str ''Uncategorized'',
      stem = str ''Hello'',
      media = \<lparr>mtype = str ''image'', url = str ''/images/2018/B/q1.png'', alt = []\<rparr>,
      qchoices = [], qanswer = []\<rparr>"
  unfolding question_at_def ex_unnumbered_classify classify_state.simps ex_unnumbered_stem
  by (simp add: question_of_def index_of_def type_of_def String_of_def digits_of.simps
      str_def cu_def)

lemma ex_unnumbered_diagnostics:
  "diagnostics_at text_only \<lparr>num = None, lines = ex_unnumbered\<rparr> 0 =
     [\<lparr>index = None, reason = str ''no-number'', sample = Some (str ''Hello''), unote = None\<rparr>]"
  unfolding diagnostics_at_def ex_unnumbered_classify classify_state.simps ex_unnumbered_stem
  by (simp add: block_diagnostics_def index_of_def ex_unnumbered_def plain_line_def
      str_def cu_def is_space_def)

lemma ex_unnumbered_audit: "auditNumbers [\<lparr>num = None, lines = ex_unnumbered\<rparr>] [] = []"
  by (simp add: auditNumbers_def)

lemma ex_unnumbered_convert:
  "convert text_only ex_unnumbered u0 =
     \<lparr>questions =
        [\<lparr>qid = str ''Q1'', qindex = 1, qtype = FREE_RESPONSE, category = str ''Uncategorized'',
          stem = str ''Hello'',
          media = \<lparr>mtype = str ''image'', url = str ''/images/2018/B/q1.png'', alt = []\<rparr>,
          qchoices = [], qanswer = []\<rparr>],
      unparsed =
        u0 @ [\<lparr>index = None, reason = str ''no-number'', sample = Some (str ''Hello''),
               unote = None\<rparr>],
      stats = \<lparr>totalBlocks = 1, parsed = 1, unparsed_count = Suc (length u0)\<rparr>\<rparr>"
  by (simp add: convert_eq ex_unnumbered_blocks ex_unnumbered_question
      ex_unnumbered_diagnostics ex_unnumbered_audit)













lemma ex_answer_audit: "auditNumbers [\<lparr>num = Some 1, lines = ls\<rparr>] [] = []"
  by (simp add: auditNumbers_def set_add_def missing_loop.simps)



lemma ex_spec_blocks: "emitted_blocks ex_spec = [\<lparr>num = Some 1, lines = ex_spec\<rparr>]"
  by (simp add: ex_spec_def seg_eval char_eval rx_eval)

lemma ex_spec_classify:
  "classify text_only \<lparr>num = Some 1, lines = ex_spec\<rparr> =
     \<lparr>stemParts = [str ''What is 2+2?''],
      choices = [\<lparr>key = str ''A'', ctext = str ''3''\<rparr>, \<lparr>key = str ''B'', ctext = str ''4''\<rparr>],
      currentChoice = None, answer = Some (str ''B'')\<rparr>"
  by (simp add: ex_spec_def plain_line_def block_eval char_eval rx_eval)

lemma ex_spec_stem: "plainStem_of text_only [str ''What is 2+2?''] = str ''What is 2+2?''"
  by (simp add: block_eval char_eval rx_eval)

lemma ex_spec_convert:
  "convert text_only ex_spec [] =
     \<lparr>questions =
        [\<lparr>qid = str ''Q1'', qindex = 1, qtype = MULTIPLE_CHOICE, category = str ''Uncategorized'',
          stem = str ''What is 2+2?'',
          media = \<lparr>mtype = str ''image'', url = str ''/images/2018/B/q1.png'', alt = []\<rparr>,
          qchoices = [\<lparr>key = str ''A'', ctext = str ''3''\<rparr>, \<lparr>key = str ''B'', ctext = str ''4''\<rparr>],
          qanswer = []\<rparr>],
      unparsed = [],
      stats = \<lparr>totalBlocks = 1, parsed = 1, unparsed_count = 0\<rparr>\<rparr>"
proof -
  have q: "question_at text_only \<lparr>num = Some 1, lines = ex_spec\<rparr> 0 =
      \<lparr>qid = str ''Q1'', qindex = 1, qtype = MULTIPLE_CHOICE, category = str ''Uncategorized'',
       stem = str ''What is 2+2?'',
       media = \<lparr>mtype = str ''image'', url = str ''/images/2018/B/q1.png'', alt = []\<rparr>,
       qchoices = [\<lparr>key = str ''A'', ctext = str ''3''\<rparr>, \<lparr>key = str ''B'', ctext = str ''4''\<rparr>],
       qanswer = []\<rparr>"
    unfolding question_at_def ex_spec_classify classify_state.simps ex_spec_stem
    by (simp add: question_of_def index_of_def type_of_def String_of_def digits_of.simps
        str_def cu_def)
  have d: "diagnostics_at text_only \<lparr>num = Some 1, lines = ex_spec\<rparr> 0 = []"
    unfolding diagnostics_at_def ex_spec_classify classify_state.simps ex_spec_stem
    by (simp add: block_diagnostics_def index_of_def str_def cu_def is_space_def)
  show ?thesis
    by (simp add: convert_eq ex_spec_blocks q d ex_answer_audit)
qed

lemma ex_two_digits_blocks:
  "emitted_blocks ex_two_digits =
     [\<lparr>num = Some 12, lines = [plain_line ''12. a'']\<rparr>,
      \<lparr>num = Some 12, lines = [plain_line ''12. b'']\<rparr>]"
  by (simp add: ex_two_digits_def seg_eval char_eval rx_eval)

lemma String_of_12: "String_of 12 = str ''12''"
  by (simp add: String_of_def digits_of.simps str_def cu_def)


section \<open>The claims\<close>

text \<open>
  Claim C3. A non-empty sequence of lines always gives at least one question: when the
  segmentation emits no block, the whole sequence becomes one block without a number, and
  there are as many questions as blocks.
\<close>

theorem nonempty_input_gives_question:
  "lns \<noteq> [] \<longrightarrow>
     questions (convert ch lns u0) \<noteq> [] \<and>
     (segment lns = [] \<longrightarrow> emitted_blocks lns = [\<lparr>num = None, lines = lns\<rparr>]) \<and>
     length (questions (convert ch lns u0)) = length (emitted_blocks lns)"
  by (simp add: questions_convert emitted_blocks_nonempty)
     (simp add: emitted_blocks_def fallback_def)

theorem nonempty_input_gives_question_witness:
  "ex_unnumbered \<noteq> [] \<and> segment ex_unnumbered = [] \<and>
   emitted_blocks ex_unnumbered = [\<lparr>num = None, lines = ex_unnumbered\<rparr>] \<and>
   length (questions (convert text_only ex_unnumbered [])) = 1"
  using nonempty_input_gives_question [of ex_unnumbered text_only "[]"] ex_unnumbered_segment
  by (simp add: ex_unnumbered_def)

text \<open>
  Claim C4. There is exactly one question per emitted block, in the order of the blocks:
  the question at position \<open>k\<close> carries the index, the stem and the choices of the block
  at position \<open>k\<close>. In the statistics \<^verbatim>\<open>parsed\<close> equals \<^verbatim>\<open>totalBlocks\<close>, the
  number of blocks: no diagnostic removes a block.
\<close>

theorem one_question_per_block:
  "length (questions (convert ch lns u0)) = length (emitted_blocks lns) \<and>
   (\<forall>k < length (emitted_blocks lns).
      qindex (questions (convert ch lns u0) ! k) = index_of (emitted_blocks lns ! k) k \<and>
      stem (questions (convert ch lns u0) ! k) =
        plainStem_of ch (stemParts (classify ch (emitted_blocks lns ! k))) \<and>
      qchoices (questions (convert ch lns u0) ! k) =
        choices (classify ch (emitted_blocks lns ! k))) \<and>
   totalBlocks (stats (convert ch lns u0)) = length (emitted_blocks lns) \<and>
   parsed (stats (convert ch lns u0)) = totalBlocks (stats (convert ch lns u0))"
  by (simp add: questions_convert stats_convert question_at_def question_of_def)

theorem one_question_per_block_witness:
  "length (emitted_blocks ex_one_choice) = 1 \<and>
   length (questions (convert text_only ex_one_choice [])) = 1 \<and>
   qindex (questions (convert text_only ex_one_choice []) ! 0) = 1 \<and>
   unparsed (convert text_only ex_one_choice []) \<noteq> [] \<and>
   parsed (stats (convert text_only ex_one_choice [])) = 1"
  using one_question_per_block [of text_only ex_one_choice "[]"]
  by (simp add: ex_one_choice_blocks ex_one_choice_convert)

text \<open>
  Claim C5. The \<^verbatim>\<open>answer\<close> of every emitted question is the empty string, whatever
  the lines are, and so whatever answer the classification extracted.
\<close>

theorem answer_always_empty:
  "\<forall>q \<in> set (questions (convert ch lns u0)). qanswer q = []"
  by (auto simp: questions_convert question_at_def question_of_def)

theorem answer_always_empty_witness:
  "answer (classify text_only (hd (emitted_blocks ex_one_choice))) = Some (str ''A'') \<and>
   questions (convert text_only ex_one_choice []) \<noteq> [] \<and>
   qanswer (hd (questions (convert text_only ex_one_choice []))) = []"
proof -
  have ne: "questions (convert text_only ex_one_choice []) \<noteq> []"
    by (simp add: ex_one_choice_convert)
  then have "hd (questions (convert text_only ex_one_choice []))
      \<in> set (questions (convert text_only ex_one_choice []))"
    by simp
  with answer_always_empty [of text_only ex_one_choice "[]"]
  have "qanswer (hd (questions (convert text_only ex_one_choice []))) = []"
    by blast
  with ne show ?thesis
    by (simp add: ex_one_choice_blocks ex_one_choice_classify)
qed

text \<open>
  Claim C8. The type of the question of a block is \<^verbatim>\<open>MULTIPLE_CHOICE\<close> exactly when
  the classification found at least two choices, and \<^verbatim>\<open>FREE_RESPONSE\<close> otherwise.
  A block with exactly one choice gives \<^verbatim>\<open>FREE_RESPONSE\<close> and an
  \<^verbatim>\<open>incomplete-choices\<close> entry with the index of its question.
\<close>

theorem type_by_choice_count:
  "\<forall>k < length (emitted_blocks lns).
     qchoices (questions (convert ch lns u0) ! k) = choices (classify ch (emitted_blocks lns ! k)) \<and>
     (qtype (questions (convert ch lns u0) ! k) = MULTIPLE_CHOICE \<longleftrightarrow>
        2 \<le> length (choices (classify ch (emitted_blocks lns ! k)))) \<and>
     (qtype (questions (convert ch lns u0) ! k) = FREE_RESPONSE \<longleftrightarrow>
        length (choices (classify ch (emitted_blocks lns ! k))) < 2) \<and>
     (length (choices (classify ch (emitted_blocks lns ! k))) = 1 \<longrightarrow>
        qtype (questions (convert ch lns u0) ! k) = FREE_RESPONSE \<and>
        \<lparr>index = Some (qindex (questions (convert ch lns u0) ! k)),
         reason = str ''incomplete-choices'',
         sample = Some (take 100 (ctext (hd (choices (classify ch (emitted_blocks lns ! k)))))),
         unote = Some (str ''found 1 choice'')\<rparr> \<in> set (unparsed (convert ch lns u0)))"
proof (intro allI impI)
  fix k
  assume k: "k < length (emitted_blocks lns)"
  let ?b = "emitted_blocks lns ! k"
  have q: "questions (convert ch lns u0) ! k = question_at ch ?b k"
    using k by (simp add: questions_convert)
  have "length (choices (classify ch ?b)) = 1 \<longrightarrow>
      \<lparr>index = Some (index_of ?b k), reason = str ''incomplete-choices'',
       sample = Some (take 100 (ctext (hd (choices (classify ch ?b))))),
       unote = Some (str ''found 1 choice'')\<rparr> \<in> set (unparsed (convert ch lns u0))"
    using incomplete_entry [of ch ?b k] diagnostics_in_unparsed [OF k, of ch u0] by blast
  then show "qchoices (questions (convert ch lns u0) ! k) = choices (classify ch ?b) \<and>
     (qtype (questions (convert ch lns u0) ! k) = MULTIPLE_CHOICE \<longleftrightarrow>
        2 \<le> length (choices (classify ch ?b))) \<and>
     (qtype (questions (convert ch lns u0) ! k) = FREE_RESPONSE \<longleftrightarrow>
        length (choices (classify ch ?b)) < 2) \<and>
     (length (choices (classify ch ?b)) = 1 \<longrightarrow>
        qtype (questions (convert ch lns u0) ! k) = FREE_RESPONSE \<and>
        \<lparr>index = Some (qindex (questions (convert ch lns u0) ! k)),
         reason = str ''incomplete-choices'',
         sample = Some (take 100 (ctext (hd (choices (classify ch ?b))))),
         unote = Some (str ''found 1 choice'')\<rparr> \<in> set (unparsed (convert ch lns u0)))"
    unfolding q by (simp add: question_at_def question_of_def type_of_def)
qed

theorem type_by_choice_count_witness:
  "0 < length (emitted_blocks ex_one_choice) \<and>
   length (choices (classify text_only (emitted_blocks ex_one_choice ! 0))) = 1 \<and>
   qtype (questions (convert text_only ex_one_choice []) ! 0) = FREE_RESPONSE \<and>
   \<lparr>index = Some 1, reason = str ''incomplete-choices'', sample = Some (str ''x''),
    unote = Some (str ''found 1 choice'')\<rparr> \<in> set (unparsed (convert text_only ex_one_choice []))"
  using type_by_choice_count [of ex_one_choice text_only "[]"]
  by (simp add: ex_one_choice_blocks ex_one_choice_classify ex_one_choice_convert)

text \<open>
  Claim C10. The \<^verbatim>\<open>id\<close> of every question is the letter Q followed by the decimal
  rendering of its index: the index is not negative, and what follows the Q is a non-empty
  string of decimal digits, without a leading zero when it has more than one digit, that
  \<^verbatim>\<open>parseInt\<close> reads back as the index. So ids are not unique: two blocks that
  declare the same number give two questions with the same id.
\<close>

theorem id_is_Q_index:
  "(\<forall>q \<in> set (questions (convert ch lns u0)).
      qid q = str ''Q'' @ String_of (qindex q) \<and>
      0 \<le> qindex q \<and>
      String_of (qindex q) \<noteq> [] \<and>
      list_all is_digit (String_of (qindex q)) \<and>
      parseInt (String_of (qindex q)) = qindex q \<and>
      (1 < length (String_of (qindex q)) \<longrightarrow> hd (String_of (qindex q)) \<noteq> cu CHR ''0'')) \<and>
   (\<forall>i j n. i < j \<and> j < length (emitted_blocks lns) \<and>
        num (emitted_blocks lns ! i) = Some n \<and> num (emitted_blocks lns ! j) = Some n \<longrightarrow>
      qid (questions (convert ch lns u0) ! i) = str ''Q'' @ String_of n \<and>
      qid (questions (convert ch lns u0) ! j) = str ''Q'' @ String_of n)"
proof (intro conjI ballI)
  fix q
  assume q: "q \<in> set (questions (convert ch lns u0))"
  then obtain k where "q = question_at ch (emitted_blocks lns ! k) k"
    using question_of_block by blast
  then show "qid q = str ''Q'' @ String_of (qindex q)"
    by (simp add: question_at_def question_of_def)
  from q show nn: "0 \<le> qindex q"
    by (rule qindex_nonneg)
  from String_of_canonical [OF nn]
  show "String_of (qindex q) \<noteq> []" and "list_all is_digit (String_of (qindex q))"
    and "parseInt (String_of (qindex q)) = qindex q"
    and "1 < length (String_of (qindex q)) \<longrightarrow> hd (String_of (qindex q)) \<noteq> cu CHR ''0''"
    by simp_all
next
  show "\<forall>i j n. i < j \<and> j < length (emitted_blocks lns) \<and>
        num (emitted_blocks lns ! i) = Some n \<and> num (emitted_blocks lns ! j) = Some n \<longrightarrow>
      qid (questions (convert ch lns u0) ! i) = str ''Q'' @ String_of n \<and>
      qid (questions (convert ch lns u0) ! j) = str ''Q'' @ String_of n"
    by (auto simp: questions_convert question_at_def question_of_def index_of_def)
qed

theorem id_is_Q_index_witness:
  "(0::nat) < 1 \<and> 1 < length (emitted_blocks ex_two_digits) \<and>
   num (emitted_blocks ex_two_digits ! 0) = Some 12 \<and>
   num (emitted_blocks ex_two_digits ! 1) = Some 12 \<and>
   questions (convert text_only ex_two_digits []) ! 0 \<in> set (questions (convert text_only ex_two_digits [])) \<and>
   qindex (questions (convert text_only ex_two_digits []) ! 0) = 12 \<and>
   String_of 12 = str ''12'' \<and>
   1 < length (String_of 12) \<and> hd (String_of 12) \<noteq> cu CHR ''0'' \<and>
   parseInt (str ''12'') = 12 \<and>
   qid (questions (convert text_only ex_two_digits []) ! 0) = str ''Q12'' \<and>
   qid (questions (convert text_only ex_two_digits []) ! 1) = str ''Q12''"
proof -
  let ?qs = "questions (convert text_only ex_two_digits [])"
  have b: "(0::nat) < 1 \<and> 1 < length (emitted_blocks ex_two_digits) \<and>
      num (emitted_blocks ex_two_digits ! 0) = Some 12 \<and>
      num (emitted_blocks ex_two_digits ! 1) = Some 12"
    by (simp add: ex_two_digits_blocks)
  have len: "length ?qs = 2"
    by (simp add: questions_convert ex_two_digits_blocks)
  then have mem: "?qs ! 0 \<in> set ?qs"
    by simp
  have idx: "qindex (?qs ! 0) = 12"
    by (simp add: questions_convert ex_two_digits_blocks question_at_def question_of_def
        index_of_def upt_conv_Cons)
  note inst = id_is_Q_index [of text_only ex_two_digits "[]"]
  from inst b have ids: "qid (?qs ! 0) = str ''Q'' @ String_of 12 \<and>
      qid (?qs ! 1) = str ''Q'' @ String_of 12"
    by blast
  from inst mem have "parseInt (String_of (qindex (?qs ! 0))) = qindex (?qs ! 0) \<and>
      (1 < length (String_of (qindex (?qs ! 0))) \<longrightarrow>
         hd (String_of (qindex (?qs ! 0))) \<noteq> cu CHR ''0'')"
    by blast
  with idx have dec: "parseInt (String_of 12) = 12 \<and>
      (1 < length (String_of 12) \<longrightarrow> hd (String_of 12) \<noteq> cu CHR ''0'')"
    by simp
  have two: "1 < length (String_of 12)"
    by (simp add: String_of_12 str_def)
  from b mem idx ids dec two show ?thesis
    by (simp add: String_of_12 str_def)
qed

text \<open>
  Claim C6. When exactly two blocks declare the same number \<open>n\<close>, at positions \<open>i\<close> and
  \<open>j\<close>, both give a question, each with index \<open>n\<close>, and the numbering audit pushes
  exactly one \<^verbatim>\<open>duplicate-number\<close> entry with index \<open>n\<close>, the only such
  entry among all the entries that the call pushes.
\<close>

theorem duplicate_number_kept_and_reported:
  "declaring (emitted_blocks lns) n = [i, j] \<longrightarrow>
     i < j \<and> j < length (questions (convert ch lns u0)) \<and>
     qindex (questions (convert ch lns u0) ! i) = n \<and>
     qindex (questions (convert ch lns u0) ! j) = n \<and>
     length (filter (\<lambda>e. reason e = str ''duplicate-number'' \<and> index e = Some n)
       (drop (length u0) (auditNumbers (emitted_blocks lns) u0))) = 1 \<and>
     length (filter (\<lambda>e. reason e = str ''duplicate-number'' \<and> index e = Some n)
       (drop (length u0) (unparsed (convert ch lns u0)))) = 1"
proof
  assume two: "declaring (emitted_blocks lns) n = [i, j]"
  let ?bs = "emitted_blocks lns"
  let ?P = "\<lambda>e. reason e = str ''duplicate-number'' \<and> index e = Some n"
  note pair = declaring_pair [OF two]
  have "count_list (declared ?bs) n = 2"
    using length_declaring [of ?bs n] two by simp
  then have one: "length (filter ?P (auditNumbers ?bs [])) = 1"
    using duplicate_count [of ?bs n] by simp
  have audit: "drop (length u0) (auditNumbers ?bs u0) = auditNumbers ?bs []"
    by (subst auditNumbers_append) simp
  have rest: "filter ?P (concat (map (\<lambda>k. diagnostics_at ch (?bs ! k) k) [0 ..< length ?bs])) = []"
    by (rule concat_filter_empty) (rule diagnostics_at_no_duplicate)
  have all: "drop (length u0) (unparsed (convert ch lns u0)) =
      auditNumbers ?bs [] @ concat (map (\<lambda>k. diagnostics_at ch (?bs ! k) k) [0 ..< length ?bs])"
    by (simp add: unparsed_convert)
  have idx: "qindex (questions (convert ch lns u0) ! i) = n"
      "qindex (questions (convert ch lns u0) ! j) = n"
    using pair by (simp_all add: questions_convert question_at_def question_of_def index_of_def)
  show "i < j \<and> j < length (questions (convert ch lns u0)) \<and>
     qindex (questions (convert ch lns u0) ! i) = n \<and>
     qindex (questions (convert ch lns u0) ! j) = n \<and>
     length (filter ?P (drop (length u0) (auditNumbers ?bs u0))) = 1 \<and>
     length (filter ?P (drop (length u0) (unparsed (convert ch lns u0)))) = 1"
    unfolding audit all using pair(1,2) idx one rest
    by (simp add: questions_convert)
qed

theorem duplicate_number_kept_and_reported_witness:
  "declaring (emitted_blocks ex_duplicate) 5 = [0, 1] \<and>
   qindex (questions (convert text_only ex_duplicate []) ! 0) = 5 \<and>
   qindex (questions (convert text_only ex_duplicate []) ! 1) = 5 \<and>
   auditNumbers (emitted_blocks ex_duplicate) [] = [duplicate_entry 5] \<and>
   length (filter (\<lambda>e. reason e = str ''duplicate-number'' \<and> index e = Some 5)
     (unparsed (convert text_only ex_duplicate []))) = 1"
  using duplicate_number_kept_and_reported [of ex_duplicate 5 0 1 text_only "[]"]
    ex_duplicate_declaring ex_duplicate_audit
  by simp

text \<open>
  Claim C7. The \<^verbatim>\<open>missing-number\<close> entries that the numbering audit pushes are, in
  ascending order, one entry for every integer between the least and the greatest declared
  number that no block declares; there is none when no block declares a number. So for every
  integer \<open>i\<close> the audit pushes exactly one \<^verbatim>\<open>missing-number\<close> entry with index
  \<open>i\<close> when \<open>i\<close> lies in that interval and is not declared, and none otherwise.
\<close>

theorem missing_numbers_reported_once:
  "filter (\<lambda>e. reason e = str ''missing-number'') (drop (length u) (auditNumbers bs u)) =
     (if declared bs = [] then []
      else map missing_entry
        (filter (\<lambda>i. i \<notin> set (declared bs)) [Min (set (declared bs)) .. Max (set (declared bs))])) \<and>
   (\<forall>i. length (filter (\<lambda>e. reason e = str ''missing-number'' \<and> index e = Some i)
            (drop (length u) (auditNumbers bs u))) =
        (if declared bs \<noteq> [] \<and> Min (set (declared bs)) \<le> i \<and> i \<le> Max (set (declared bs)) \<and>
            i \<notin> set (declared bs)
         then 1 else 0))"
proof -
  have audit: "drop (length u) (auditNumbers bs u) = auditNumbers bs []"
    by (subst auditNumbers_append) simp
  have dup: "\<And>P d. filter (\<lambda>e. reason e = str ''missing-number'' \<and> P e) (map duplicate_entry d) = []"
    using reason_tags_differ(1) by (auto simp: duplicate_entry_def filter_empty_conv)
  show ?thesis
    unfolding audit auditNumbers_closed
    by (simp add: filter_duplicate_entries_missing filter_missing_entries dup
        filter_missing_entries_index count_in_filtered del: filter_filter)
qed

theorem missing_numbers_reported_once_witness:
  "declared (emitted_blocks ex_gap) = [1, 3] \<and>
   filter (\<lambda>e. reason e = str ''missing-number'') (auditNumbers (emitted_blocks ex_gap) []) =
     [missing_entry 2] \<and>
   length (filter (\<lambda>e. reason e = str ''missing-number'' \<and> index e = Some 2)
     (auditNumbers (emitted_blocks ex_gap) [])) = 1"
  using missing_numbers_reported_once [of "[]" "emitted_blocks ex_gap"]
  by (simp add: ex_gap_declared upto_1_3)

text \<open>
  Claim C2 says that two runs on the same lines give the same questions, diagnostics and
  statistics, the array \<^verbatim>\<open>unparsed\<close> belonging to one call. In the source the array
  is a constant of the module. On the document \<open>ex_unnumbered\<close>, a first call started
  with an empty array answers one \<^verbatim>\<open>no-number\<close> entry; a second call, which finds
  the array as the first left it, answers that entry twice and counts two.
\<close>

theorem second_call_repeats_first_call_entries:
  "unparsed (convert text_only ex_unnumbered []) =
     [\<lparr>index = None, reason = str ''no-number'', sample = Some (str ''Hello''), unote = None\<rparr>] \<and>
   unparsed (convert text_only ex_unnumbered (unparsed (convert text_only ex_unnumbered []))) =
     [\<lparr>index = None, reason = str ''no-number'', sample = Some (str ''Hello''), unote = None\<rparr>,
      \<lparr>index = None, reason = str ''no-number'', sample = Some (str ''Hello''), unote = None\<rparr>] \<and>
   unparsed_count (stats (convert text_only ex_unnumbered [])) = 1 \<and>
   unparsed_count (stats (convert text_only ex_unnumbered
     (unparsed (convert text_only ex_unnumbered [])))) = 2 \<and>
   fst (POST text_only True ex_unnumbered []) \<noteq>
   fst (POST text_only True ex_unnumbered (snd (POST text_only True ex_unnumbered [])))"
  by (simp add: POST_def Let_def ex_unnumbered_convert)







end
